theory Spec2Isabelle
  imports Main "HOL-Library.Word" "HOL-Library.Multiset"
begin

unbundle bit_operations_syntax

section \<open>Paths, files and errors\<close>

text \<open>
  The script is Python 2 on a POSIX system: a \<open>str\<close> is a sequence of bytes, which is
  what \<^typ>\<open>string\<close> is. A path is the literal string the script hands to the
  operating system (no normalisation, no symbolic links). The file system maps a path
  to what is found there.
\<close>

type_synonym path = string

datatype node = Dir | File string

type_synonym filesystem = "path \<Rightarrow> node option"

text \<open>
  The exceptions the script can meet. \<open>CommandFailed l\<close> is the
  \<^verbatim>\<open>Exception('Failed to update dependencies (see l)')\<close> of \<^verbatim>\<open>call_installer\<close>.
\<close>

datatype error = IOError | OSError | AssertionError | CommandFailed "path option"

section \<open>The dependency set (\<^verbatim>\<open>Autodeps.__init__\<close>, lines 40 to 46)\<close>

text \<open>
  \<^verbatim>\<open>for line in open(path)\<close> yields the lines of the file, each with its terminating
  newline (the last line may have none).
\<close>

definition newline :: char where
  "newline = CHR 0x0A"

fun file_lines :: "string \<Rightarrow> string list" where
  "file_lines [] = []"
| "file_lines (c # cs) =
     (if c = newline then [c] # file_lines cs
      else (case file_lines cs of [] \<Rightarrow> [[c]] | l # ls \<Rightarrow> (c # l) # ls))"

text \<open>
  \<^verbatim>\<open>re.sub(r'[#].*', '', line)\<close>: every \<^verbatim>\<open>#\<close> is deleted together with what follows it
  up to, and not including, the next newline (\<^verbatim>\<open>.\<close> does not match a newline).
\<close>

function re_sub_comment :: "string \<Rightarrow> string" where
  "re_sub_comment [] = []"
| "re_sub_comment (c # cs) =
     (if c = CHR ''#'' then re_sub_comment (dropWhile (\<lambda>d. d \<noteq> newline) cs)
      else c # re_sub_comment cs)"
  by pat_completeness auto
termination
  by (relation "measure length") (auto simp: length_dropWhile_le less_Suc_eq_le)

text \<open>
  \<^verbatim>\<open>str.strip()\<close> without argument removes the bytes for which \<^verbatim>\<open>isspace\<close> holds in the
  C locale from both ends: space, tab, newline, vertical tab, form feed, carriage return.
\<close>

definition isspace :: "char \<Rightarrow> bool" where
  "isspace c \<longleftrightarrow> c \<in> {CHR 0x20, CHR 0x09, CHR 0x0A, CHR 0x0B, CHR 0x0C, CHR 0x0D}"

definition strip :: "string \<Rightarrow> string" where
  "strip s = rev (dropWhile isspace (rev (dropWhile isspace s)))"

text \<open>\<^verbatim>\<open>open(path)\<close> for reading raises \<^verbatim>\<open>IOError\<close> unless a file is there.\<close>

definition open_read :: "filesystem \<Rightarrow> path \<Rightarrow> error + string" where
  "open_read fs p = (case fs p of Some (File content) \<Rightarrow> Inr content | _ \<Rightarrow> Inl IOError)"

text \<open>
  The loop over \<^verbatim>\<open>requirements_filenames\<close>, with \<^verbatim>\<open>self.requirements\<close> as accumulator,
  followed by \<^verbatim>\<open>filter(len, self.requirements)\<close>.
\<close>

fun collect_requirements :: "filesystem \<Rightarrow> path list \<Rightarrow> string list \<Rightarrow> error + string list" where
  "collect_requirements fs [] acc = Inr acc"
| "collect_requirements fs (p # ps) acc =
     (case open_read fs p of
        Inl e \<Rightarrow> Inl e
      | Inr content \<Rightarrow>
          collect_requirements fs ps
            (acc @ map (\<lambda>line. strip (re_sub_comment line)) (file_lines content)))"

definition load_requirements :: "filesystem \<Rightarrow> path list \<Rightarrow> error + string list" where
  "load_requirements fs ps =
     (case collect_requirements fs ps [] of
        Inl e \<Rightarrow> Inl e
      | Inr rs \<Rightarrow> Inr (filter (\<lambda>r. length r \<noteq> 0) rs))"

section \<open>\<^verbatim>\<open>repr\<close> of a list of byte strings\<close>

text \<open>
  Python 2 writes a \<open>str\<close> between single quotes, or between double quotes when it
  contains a single quote and no double quote. The quote in use and the backslash are
  escaped with a backslash; tab, newline and carriage return are written \<^verbatim>\<open>\t\<close>, \<^verbatim>\<open>\n\<close>,
  \<^verbatim>\<open>\r\<close>; every other byte below 0x20 or from 0x7f on is written \<^verbatim>\<open>\xhh\<close>.
\<close>

definition hex_digit :: "nat \<Rightarrow> char" where
  "hex_digit n = ''0123456789abcdef'' ! (n mod 16)"

definition squote :: char where
  "squote = CHR 0x27"

definition dquote :: char where
  "dquote = CHR 0x22"

definition backslash :: char where
  "backslash = CHR 0x5C"

definition repr_quote :: "string \<Rightarrow> char" where
  "repr_quote s = (if squote \<in> set s \<and> dquote \<notin> set s then dquote else squote)"

definition repr_char :: "char \<Rightarrow> char \<Rightarrow> string" where
  "repr_char q c =
     (if c = q \<or> c = backslash then [backslash, c]
      else if c = CHR 0x09 then [backslash, CHR ''t'']
      else if c = CHR 0x0A then [backslash, CHR ''n'']
      else if c = CHR 0x0D then [backslash, CHR ''r'']
      else if of_char c < (0x20 :: nat) \<or> (0x7f :: nat) \<le> of_char c
        then [backslash, CHR ''x'', hex_digit (of_char c div 16), hex_digit (of_char c mod 16)]
      else [c])"

definition repr_str :: "string \<Rightarrow> string" where
  "repr_str s = repr_quote s # concat (map (repr_char (repr_quote s)) s) @ [repr_quote s]"

fun join_comma :: "string list \<Rightarrow> string" where
  "join_comma [] = []"
| "join_comma [x] = x"
| "join_comma (x # y # ys) = x @ '', '' @ join_comma (y # ys)"

definition repr_list :: "string list \<Rightarrow> string" where
  "repr_list xs = ''['' @ join_comma (map repr_str xs) @ '']''"

section \<open>SHA-224 (\<^verbatim>\<open>hashlib.sha224(...).hexdigest()\<close>)\<close>

text \<open>
  The digest of FIPS 180-4: SHA-256 with its own initial value, cut to the first seven
  words of the final state.
\<close>

type_synonym w32 = "32 word"

type_synonym sha_state = "w32 \<times> w32 \<times> w32 \<times> w32 \<times> w32 \<times> w32 \<times> w32 \<times> w32"

text \<open>The round constants, eight rounds at a time.\<close>

definition sha_k_0 :: "w32 list" where
  "sha_k_0 =
     [0x428a2f98, 0x71374491, 0xb5c0fbcf, 0xe9b5dba5,
      0x3956c25b, 0x59f111f1, 0x923f82a4, 0xab1c5ed5]"

definition sha_k_1 :: "w32 list" where
  "sha_k_1 =
     [0xd807aa98, 0x12835b01, 0x243185be, 0x550c7dc3,
      0x72be5d74, 0x80deb1fe, 0x9bdc06a7, 0xc19bf174]"

definition sha_k_2 :: "w32 list" where
  "sha_k_2 =
     [0xe49b69c1, 0xefbe4786, 0x0fc19dc6, 0x240ca1cc,
      0x2de92c6f, 0x4a7484aa, 0x5cb0a9dc, 0x76f988da]"

definition sha_k_3 :: "w32 list" where
  "sha_k_3 =
     [0x983e5152, 0xa831c66d, 0xb00327c8, 0xbf597fc7,
      0xc6e00bf3, 0xd5a79147, 0x06ca6351, 0x14292967]"

definition sha_k_4 :: "w32 list" where
  "sha_k_4 =
     [0x27b70a85, 0x2e1b2138, 0x4d2c6dfc, 0x53380d13,
      0x650a7354, 0x766a0abb, 0x81c2c92e, 0x92722c85]"

definition sha_k_5 :: "w32 list" where
  "sha_k_5 =
     [0xa2bfe8a1, 0xa81a664b, 0xc24b8b70, 0xc76c51a3,
      0xd192e819, 0xd6990624, 0xf40e3585, 0x106aa070]"

definition sha_k_6 :: "w32 list" where
  "sha_k_6 =
     [0x19a4c116, 0x1e376c08, 0x2748774c, 0x34b0bcb5,
      0x391c0cb3, 0x4ed8aa4a, 0x5b9cca4f, 0x682e6ff3]"

definition sha_k_7 :: "w32 list" where
  "sha_k_7 =
     [0x748f82ee, 0x78a5636f, 0x84c87814, 0x8cc70208,
      0x90befffa, 0xa4506ceb, 0xbef9a3f7, 0xc67178f2]"

definition sha_k :: "w32 list" where
  "sha_k = sha_k_0 @ sha_k_1 @ sha_k_2 @ sha_k_3 @ sha_k_4 @ sha_k_5 @ sha_k_6 @ sha_k_7"

definition sha224_init :: sha_state where
  "sha224_init =
     (0xc1059ed8, 0x367cd507, 0x3070dd17, 0xf70e5939, 0xffc00b31, 0x68581511, 0x64f98fa7, 0xbefa4fa4)"

definition sha_ch :: "w32 \<Rightarrow> w32 \<Rightarrow> w32 \<Rightarrow> w32" where
  "sha_ch x y z = (x AND y) XOR (NOT x AND z)"

definition sha_maj :: "w32 \<Rightarrow> w32 \<Rightarrow> w32 \<Rightarrow> w32" where
  "sha_maj x y z = (x AND y) XOR (x AND z) XOR (y AND z)"

definition big_sigma0 :: "w32 \<Rightarrow> w32" where
  "big_sigma0 x = word_rotr 2 x XOR word_rotr 13 x XOR word_rotr 22 x"

definition big_sigma1 :: "w32 \<Rightarrow> w32" where
  "big_sigma1 x = word_rotr 6 x XOR word_rotr 11 x XOR word_rotr 25 x"

definition small_sigma0 :: "w32 \<Rightarrow> w32" where
  "small_sigma0 x = word_rotr 7 x XOR word_rotr 18 x XOR drop_bit 3 x"

definition small_sigma1 :: "w32 \<Rightarrow> w32" where
  "small_sigma1 x = word_rotr 17 x XOR word_rotr 19 x XOR drop_bit 10 x"

text \<open>Padding: a 1 bit, zeros up to 56 modulo 64 bytes, the bit length on 64 bits.\<close>

definition be64 :: "64 word \<Rightarrow> 8 word list" where
  "be64 n = map (\<lambda>i. ucast (drop_bit (8 * i) n)) [7, 6, 5, 4, 3, 2, 1, 0]"

definition sha_pad :: "string \<Rightarrow> 8 word list" where
  "sha_pad m =
     map of_char m @ [0x80] @ replicate ((119 - length m mod 64) mod 64) 0
       @ be64 (of_nat (8 * length m))"

definition be32 :: "8 word list \<Rightarrow> w32" where
  "be32 bs = foldl (\<lambda>acc b. push_bit 8 acc OR ucast b) 0 bs"

function chunks :: "nat \<Rightarrow> 'a list \<Rightarrow> 'a list list" where
  "chunks n xs = (if n = 0 \<or> xs = [] then [] else take n xs # chunks n (drop n xs))"
  by pat_completeness auto
termination
  by (relation "measure (\<lambda>(n, xs). length xs)") auto

declare chunks.simps [simp del]

text \<open>The message schedule: sixteen words of the block, extended to sixty-four.\<close>

fun sha_schedule :: "nat \<Rightarrow> w32 list \<Rightarrow> w32 list" where
  "sha_schedule 0 w = w"
| "sha_schedule (Suc n) w =
     sha_schedule n
       (w @ [small_sigma1 (w ! (length w - 2)) + w ! (length w - 7)
             + small_sigma0 (w ! (length w - 15)) + w ! (length w - 16)])"

definition sha_round :: "sha_state \<Rightarrow> w32 \<times> w32 \<Rightarrow> sha_state" where
  "sha_round s kw =
     (case s of (a, b, c, d, e, f, g, h) \<Rightarrow>
        (let t1 = h + big_sigma1 e + sha_ch e f g + fst kw + snd kw;
             t2 = big_sigma0 a + sha_maj a b c
         in (t1 + t2, a, b, c, d + t1, e, f, g)))"

definition sha_add :: "sha_state \<Rightarrow> sha_state \<Rightarrow> sha_state" where
  "sha_add s t =
     (case s of (a, b, c, d, e, f, g, h) \<Rightarrow>
      case t of (a', b', c', d', e', f', g', h') \<Rightarrow>
        (a + a', b + b', c + c', d + d', e + e', f + f', g + g', h + h'))"

definition sha_compress :: "sha_state \<Rightarrow> 8 word list \<Rightarrow> sha_state" where
  "sha_compress s block =
     sha_add s (foldl sha_round s (zip sha_k (sha_schedule 48 (map be32 (chunks 4 block)))))"

definition hex32 :: "w32 \<Rightarrow> string" where
  "hex32 w = map (\<lambda>i. hex_digit (unat (drop_bit (4 * i) w AND 15))) [7, 6, 5, 4, 3, 2, 1, 0]"

definition sha224_hexdigest :: "string \<Rightarrow> string" where
  "sha224_hexdigest m =
     (case foldl sha_compress sha224_init (chunks 64 (sha_pad m)) of
        (a, b, c, d, e, f, g, h) \<Rightarrow>
          hex32 a @ hex32 b @ hex32 c @ hex32 d @ hex32 e @ hex32 f @ hex32 g)"

section \<open>The identity (\<^verbatim>\<open>Autodeps.__init__\<close>, lines 47 to 49)\<close>

text \<open>
  \<^verbatim>\<open>hashlib.sha224(platform.python_version() + repr(self.requirements)).hexdigest()[:40]\<close>.
  The interpreter's version string is a parameter.
\<close>

definition hash_input :: "string \<Rightarrow> string list \<Rightarrow> string" where
  "hash_input python_version requirements = python_version @ repr_list requirements"

definition deps_hash :: "string \<Rightarrow> string list \<Rightarrow> string" where
  "deps_hash python_version requirements =
     take 40 (sha224_hexdigest (hash_input python_version requirements))"

text \<open>\<^verbatim>\<open>'{0}.tar.gz'.format(self.deps_hash)\<close>, the name of the archive of an identity.\<close>

definition tarball_name :: "string \<Rightarrow> string" where
  "tarball_name h = h @ ''.tar.gz''"

section \<open>Vocabulary of the statements about the pure part\<close>

text \<open>A lowercase hexadecimal digit.\<close>

definition lower_hex :: "char \<Rightarrow> bool" where
  "lower_hex c \<longleftrightarrow> c \<in> set ''0123456789abcdef''"

text \<open>
  Two different byte strings whose digests agree on the forty digits the script keeps:
  a collision of the truncated SHA-224.
\<close>

definition digest_collision :: "string \<Rightarrow> string \<Rightarrow> bool" where
  "digest_collision x y \<longleftrightarrow>
     x \<noteq> y \<and> take 40 (sha224_hexdigest x) = take 40 (sha224_hexdigest y)"

text \<open>
  What an entry of the dependency set looks like: not empty, without comment sign,
  without white space at either end.
\<close>

definition is_declaration :: "string \<Rightarrow> bool" where
  "is_declaration r \<longleftrightarrow>
     r \<noteq> [] \<and> CHR ''#'' \<notin> set r \<and> \<not> isspace (hd r) \<and> \<not> isspace (last r)"

text \<open>The content of the file at a path (empty where there is no file).\<close>

definition file_content :: "filesystem \<Rightarrow> path \<Rightarrow> string" where
  "file_content fs p = (case fs p of Some (File content) \<Rightarrow> content | _ \<Rightarrow> [])"

text \<open>The body of a \<^verbatim>\<open>repr\<close>, between its quotes.\<close>

definition repr_body :: "char \<Rightarrow> string \<Rightarrow> string" where
  "repr_body q s = concat (map (repr_char q) s)"

text \<open>
  The dependency file of the end-to-end scenario: \<^verbatim>\<open>foo==1.0\<close>, a comment, a blank
  line, \<^verbatim>\<open>bar\<close>.
\<close>

definition example_file :: string where
  "example_file =
     ''foo==1.0'' @ [newline] @ ''# comment'' @ [newline] @ [newline] @ ''bar'' @ [newline]"

section \<open>Properties of the dependency set and of the identity\<close>

subsection \<open>Hexadecimal digits and the length of the digest\<close>

lemma lower_hex_hex_digit: "lower_hex (hex_digit n)"
  unfolding hex_digit_def lower_hex_def by (rule nth_mem) simp

lemma hex_digit_inj: "m < 16 \<Longrightarrow> n < 16 \<Longrightarrow> hex_digit m = hex_digit n \<Longrightarrow> m = n"
proof -
  assume m: "m < 16" and n: "n < 16" and eq: "hex_digit m = hex_digit n"
  have d: "distinct ''0123456789abcdef''" by simp
  have l: "length ''0123456789abcdef'' = 16" by simp
  from eq m n have "''0123456789abcdef'' ! m = ''0123456789abcdef'' ! n"
    by (simp add: hex_digit_def)
  with d l m n show "m = n"
    by (metis nth_eq_iff_index_eq)
qed

lemma length_hex32: "length (hex32 w) = 8"
  by (simp add: hex32_def)

lemma lower_hex_hex32: "list_all lower_hex (hex32 w)"
  by (simp add: hex32_def lower_hex_hex_digit)

lemma length_sha224_hexdigest: "length (sha224_hexdigest m) = 56"
  by (simp add: sha224_hexdigest_def length_hex32 split: prod.splits)

lemma lower_hex_sha224_hexdigest: "list_all lower_hex (sha224_hexdigest m)"
  by (simp add: sha224_hexdigest_def lower_hex_hex32 split: prod.splits)

lemma list_all_take: "list_all P xs \<Longrightarrow> list_all P (take n xs)"
  by (auto simp: list_all_iff dest: in_set_takeD)

text \<open>
  Claim C10. For every runtime-version string and every dependency set, the identity is
  exactly forty lowercase hexadecimal characters, the first forty digits of the SHA-224
  digest of the version followed by the \<^verbatim>\<open>repr\<close> of the list; the archive name built
  from it has the fixed length 47.
\<close>

theorem deps_hash_forty_hex_digits:
  "length (deps_hash python_version requirements) = 40
   \<and> list_all lower_hex (deps_hash python_version requirements)
   \<and> deps_hash python_version requirements
       = take 40 (sha224_hexdigest (python_version @ repr_list requirements))
   \<and> length (tarball_name (deps_hash python_version requirements)) = 47"
  by (simp add: deps_hash_def hash_input_def tarball_name_def length_sha224_hexdigest
      lower_hex_sha224_hexdigest list_all_take)

subsection \<open>Two digests, computed\<close>

text \<open>
  The identities of the declarations \<^verbatim>\<open>foo==1.0\<close>, \<^verbatim>\<open>bar\<close> and of the same two in
  the other order, under the interpreter version 2.7.3.
\<close>

lemma example_identity:
  "deps_hash ''2.7.3'' [''foo==1.0'', ''bar''] = ''322226b6ad00561285aff64f62a7cb0e4ddb1006''"
  by code_simp

lemma example_identity_swapped:
  "deps_hash ''2.7.3'' [''bar'', ''foo==1.0''] = ''2f56aa4e7444980f8998a682d8613e8bf111c1c6''"
  by code_simp

subsection \<open>Comments, white space, empty lines\<close>

lemma hash_notin_re_sub_comment: "CHR ''#'' \<notin> set (re_sub_comment s)"
  by (induction s rule: re_sub_comment.induct) auto

lemma set_strip: "set (strip s) \<subseteq> set s"
  by (auto simp: strip_def dest!: set_dropWhileD)

lemma strip_prefix: "dropWhile isspace s = strip s @ rev (takeWhile isspace (rev (dropWhile isspace s)))"
  unfolding strip_def
  by (metis rev_append rev_rev_ident takeWhile_dropWhile_id)

lemma strip_hd: "strip s \<noteq> [] \<Longrightarrow> \<not> isspace (hd (strip s))"
proof -
  assume ne: "strip s \<noteq> []"
  then have "hd (strip s) = hd (dropWhile isspace s)"
    by (metis strip_prefix hd_append2)
  moreover from ne have "dropWhile isspace s \<noteq> []"
    by (metis strip_prefix append_is_Nil_conv)
  ultimately show ?thesis
    by (simp add: hd_dropWhile)
qed

lemma strip_last: "strip s \<noteq> [] \<Longrightarrow> \<not> isspace (last (strip s))"
proof -
  assume ne: "strip s \<noteq> []"
  then have ne': "dropWhile isspace (rev (dropWhile isspace s)) \<noteq> []"
    by (simp add: strip_def)
  have "last (strip s) = hd (dropWhile isspace (rev (dropWhile isspace s)))"
    using ne' by (simp add: strip_def last_rev)
  with ne' show ?thesis
    by (simp add: hd_dropWhile)
qed

lemma open_read_file_content: "open_read fs p = Inr c \<Longrightarrow> file_content fs p = c"
  by (auto simp: open_read_def file_content_def split: option.splits node.splits)

lemma collect_requirements_closed:
  "collect_requirements fs ps acc = Inr rs \<Longrightarrow>
   rs = acc @ concat (map (\<lambda>p. map (\<lambda>line. strip (re_sub_comment line))
                               (file_lines (file_content fs p))) ps)"
proof (induction ps arbitrary: acc)
  case Nil
  then show ?case by simp
next
  case (Cons p ps)
  from Cons.prems obtain c where c: "open_read fs p = Inr c"
    by (auto split: sum.splits)
  with Cons.prems have "collect_requirements fs ps
      (acc @ map (\<lambda>line. strip (re_sub_comment line)) (file_lines c)) = Inr rs"
    by simp
  from Cons.IH [OF this] open_read_file_content [OF c] show ?case
    by simp
qed

lemma is_declaration_strip:
  "strip (re_sub_comment l) \<noteq> [] \<Longrightarrow> is_declaration (strip (re_sub_comment l))"
  using set_strip [of "re_sub_comment l"] hash_notin_re_sub_comment [of l]
  by (auto simp: is_declaration_def strip_hd strip_last)

lemma load_requirements_declarations:
  "load_requirements fs ps = Inr rs \<Longrightarrow> list_all is_declaration rs"
  by (auto simp: load_requirements_def list_all_iff is_declaration_strip
      split: sum.splits dest!: collect_requirements_closed)

lemma example_requirements:
  "load_requirements [''requirements.txt'' \<mapsto> File example_file] [''requirements.txt'']
     = Inr [''foo==1.0'', ''bar'']"
  by (simp add: load_requirements_def open_read_def example_file_def newline_def strip_def
      isspace_def)

lemma load_requirements_closed:
  "load_requirements fs ps = Inr rs \<Longrightarrow>
   rs = filter (\<lambda>r. r \<noteq> [])
          (concat (map (\<lambda>p. map (\<lambda>line. strip (re_sub_comment line))
                               (file_lines (file_content fs p))) ps))"
  by (auto simp: load_requirements_def split: sum.splits dest!: collect_requirements_closed)

text \<open>
  Claim C7. The dependency file with the lines \<^verbatim>\<open>foo==1.0\<close>, \<^verbatim>\<open># comment\<close>, a blank
  line and \<^verbatim>\<open>bar\<close> gives exactly the dependency set \<^verbatim>\<open>["foo==1.0", "bar"]\<close>, whose
  identity under a fixed interpreter version (here 2.7.3) is one fixed token. In general
  the dependency set is, in the order of the files and of their lines, the lines with
  comments removed and white space trimmed, the empty ones dropped: every entry is
  non-empty, holds no comment sign and neither starts nor ends with white space.
\<close>

theorem requirements_parsing:
  "load_requirements [''requirements.txt'' \<mapsto> File example_file] [''requirements.txt'']
     = Inr [''foo==1.0'', ''bar'']
   \<and> deps_hash ''2.7.3'' [''foo==1.0'', ''bar''] = ''322226b6ad00561285aff64f62a7cb0e4ddb1006''
   \<and> (load_requirements fs ps = Inr rs \<longrightarrow>
        list_all is_declaration rs
        \<and> rs = filter (\<lambda>r. r \<noteq> [])
               (concat (map (\<lambda>p. map (\<lambda>line. strip (re_sub_comment line))
                                    (file_lines (file_content fs p))) ps)))"
  using example_requirements example_identity load_requirements_declarations [of fs ps rs]
    load_requirements_closed [of fs ps rs]
  by blast

theorem requirements_parsing_witness:
  "load_requirements [''requirements.txt'' \<mapsto> File example_file] [''requirements.txt'']
     = Inr [''foo==1.0'', ''bar'']
   \<and> list_all is_declaration [''foo==1.0'', ''bar'']
   \<and> [''foo==1.0'', ''bar'']
       = filter (\<lambda>r. r \<noteq> [])
           (concat (map (\<lambda>p. map (\<lambda>line. strip (re_sub_comment line))
              (file_lines (file_content [''requirements.txt'' \<mapsto> File example_file] p)))
              [''requirements.txt'']))"
  using requirements_parsing [of "[''requirements.txt'' \<mapsto> File example_file]"
      "[''requirements.txt'']" "[''foo==1.0'', ''bar'']"]
  by blast

subsection \<open>The digest input determines the dependency set\<close>

lemma of_char_less_256: "(of_char c :: nat) < 256"
  by (metis of_char_mod_256 mod_less_divisor zero_less_numeral)

lemma hex_pair_inj:
  assumes "hex_digit (of_char c div 16) = hex_digit (of_char d div 16)"
    and "hex_digit (of_char c mod 16) = hex_digit (of_char d mod 16)"
  shows "c = d"
proof -
  let ?m = "of_char c :: nat" and ?n = "of_char d :: nat"
  have m: "?m < 256" and n: "?n < 256" by (rule of_char_less_256)+
  from m have "?m div 16 < 16" by arith
  moreover from n have "?n div 16 < 16" by arith
  ultimately have "?m div 16 < 16" "?n div 16 < 16" .
  with assms(1) have hi: "?m div 16 = ?n div 16" by (blast intro: hex_digit_inj)
  have "?m mod 16 < 16" "?n mod 16 < 16" by simp_all
  with assms(2) have lo: "?m mod 16 = ?n mod 16" by (blast intro: hex_digit_inj)
  from hi lo have "?m = ?n" by (metis div_mult_mod_eq)
  then show ?thesis by simp
qed

lemma repr_char_nonempty: "repr_char q c \<noteq> []"
  by (simp add: repr_char_def)

lemma repr_char_hd: "q \<noteq> backslash \<Longrightarrow> hd (repr_char q c) \<noteq> q"
  by (auto simp: repr_char_def)

lemma repr_char_prefix_code:
  assumes q: "q = squote \<or> q = dquote"
    and eq: "repr_char q c @ x = repr_char q d @ y"
  shows "c = d"
  using q eq
  by (auto simp: repr_char_def squote_def dquote_def backslash_def
      split: if_splits dest: hex_pair_inj)


lemma repr_body_simps [simp]:
  "repr_body q [] = []"
  "repr_body q (c # cs) = repr_char q c @ repr_body q cs"
  by (simp_all add: repr_body_def)

lemma quote_not_backslash: "q = squote \<or> q = dquote \<Longrightarrow> q \<noteq> backslash"
  by (auto simp: squote_def dquote_def backslash_def)

lemma repr_char_Cons_quote:
  assumes q: "q = squote \<or> q = dquote"
  shows "repr_char q c @ x \<noteq> q # y"
proof
  assume eq: "repr_char q c @ x = q # y"
  have "hd (repr_char q c @ x) = hd (repr_char q c)"
    by (simp add: repr_char_nonempty)
  with eq have "hd (repr_char q c) = q" by simp
  with repr_char_hd [OF quote_not_backslash [OF q], of c] show False by simp
qed

lemma repr_body_unique:
  assumes q: "q = squote \<or> q = dquote"
  shows "repr_body q a @ q # x = repr_body q b @ q # y \<Longrightarrow> a = b \<and> x = y"
proof (induction a arbitrary: b)
  case Nil
  show ?case
  proof (cases b)
    case Nil
    with Nil.prems show ?thesis by simp
  next
    case (Cons d ds)
    with Nil.prems have "repr_char q d @ (repr_body q ds @ q # y) = q # x" by simp
    with repr_char_Cons_quote [OF q] show ?thesis by blast
  qed
next
  case (Cons c cs)
  show ?case
  proof (cases b)
    case Nil
    with Cons.prems have "repr_char q c @ (repr_body q cs @ q # x) = q # y" by simp
    with repr_char_Cons_quote [OF q] show ?thesis by blast
  next
    case (Cons d ds)
    with Cons.prems
    have eq: "repr_char q c @ (repr_body q cs @ q # x) = repr_char q d @ (repr_body q ds @ q # y)"
      by simp
    from repr_char_prefix_code [OF q eq] have cd: "c = d" .
    with eq have "repr_body q cs @ q # x = repr_body q ds @ q # y" by simp
    from Cons.IH [OF this] cd Cons show ?thesis by simp
  qed
qed

lemma repr_quote_cases: "repr_quote s = squote \<or> repr_quote s = dquote"
  by (simp add: repr_quote_def)

lemma repr_str_eq: "repr_str s = repr_quote s # repr_body (repr_quote s) s @ [repr_quote s]"
  by (simp add: repr_str_def repr_body_def)

lemma repr_str_unique: "repr_str a @ x = repr_str b @ y \<Longrightarrow> a = b \<and> x = y"
proof -
  assume eq: "repr_str a @ x = repr_str b @ y"
  then have qq: "repr_quote a = repr_quote b"
    by (simp add: repr_str_eq)
  with eq have "repr_body (repr_quote a) a @ repr_quote a # x
      = repr_body (repr_quote a) b @ repr_quote a # y"
    by (simp add: repr_str_eq)
  from repr_body_unique [OF repr_quote_cases this] show ?thesis .
qed

lemma repr_str_hd: "\<exists>r. repr_str s = repr_quote s # r"
  by (simp add: repr_str_eq)

lemma join_comma_Cons:
  "join_comma (x # xs) = x @ (if xs = [] then [] else '', '' @ join_comma xs)"
  by (cases xs) simp_all

lemma join_repr_unique:
  "join_comma (map repr_str xs) @ CHR '']'' # x = join_comma (map repr_str ys) @ CHR '']'' # y
   \<Longrightarrow> xs = ys"
proof (induction xs arbitrary: ys)
  case Nil
  show ?case
  proof (cases ys)
    case Nil
    then show ?thesis by simp
  next
    case (Cons b bs)
    with Nil.prems repr_quote_cases [of b] show ?thesis
      by (auto simp: join_comma_Cons repr_str_eq squote_def dquote_def split: if_splits)
  qed
next
  case (Cons a as)
  show ?case
  proof (cases ys)
    case Nil
    with Cons.prems repr_quote_cases [of a] show ?thesis
      by (auto simp: join_comma_Cons repr_str_eq squote_def dquote_def split: if_splits)
  next
    case (Cons b bs)
    let ?ta = "(if map repr_str as = [] then [] else '', '' @ join_comma (map repr_str as)) @ CHR '']'' # x"
    let ?tb = "(if map repr_str bs = [] then [] else '', '' @ join_comma (map repr_str bs)) @ CHR '']'' # y"
    from Cons Cons.prems have "repr_str a @ ?ta = repr_str b @ ?tb"
      by (simp add: join_comma_Cons)
    from repr_str_unique [OF this] have ab: "a = b" and t: "?ta = ?tb" by simp_all
    from t have "as = bs"
    proof (cases "as = []"; cases "bs = []")
      assume "as \<noteq> []" "bs \<noteq> []"
      with t have "join_comma (map repr_str as) @ CHR '']'' # x
          = join_comma (map repr_str bs) @ CHR '']'' # y"
        by simp
      then show ?thesis by (rule Cons.IH)
    qed auto
    with ab Cons show ?thesis by simp
  qed
qed

lemma repr_list_inj: "repr_list xs = repr_list ys \<Longrightarrow> xs = ys"
proof -
  assume "repr_list xs = repr_list ys"
  then have "join_comma (map repr_str xs) @ CHR '']'' # [] = join_comma (map repr_str ys) @ CHR '']'' # []"
    by (simp add: repr_list_def)
  then show ?thesis by (rule join_repr_unique)
qed

lemma hash_input_inj: "hash_input v xs = hash_input v ys \<longleftrightarrow> xs = ys"
  by (auto simp: hash_input_def dest: repr_list_inj)

text \<open>
  Claim C6. The identity is a function of the version string and of the list of
  declarations: equal lists give equal identities. Different lists (in particular the
  same declarations in another order) give different digest inputs, so their identities
  differ unless the truncated SHA-224 collides on these two inputs.
\<close>

theorem identity_deterministic_and_order_sensitive:
  "(A = B \<longrightarrow> deps_hash v A = deps_hash v B)
   \<and> (A \<noteq> B \<longrightarrow> hash_input v A \<noteq> hash_input v B)
   \<and> (A \<noteq> B \<and> \<not> digest_collision (hash_input v A) (hash_input v B)
        \<longrightarrow> deps_hash v A \<noteq> deps_hash v B)"
  by (auto simp: hash_input_inj deps_hash_def digest_collision_def)

theorem identity_deterministic_and_order_sensitive_witness:
  "[''foo==1.0'', ''bar''] \<noteq> [''bar'', ''foo==1.0'']
   \<and> mset [''foo==1.0'', ''bar''] = mset [''bar'', ''foo==1.0'']
   \<and> \<not> digest_collision (hash_input ''2.7.3'' [''foo==1.0'', ''bar''])
          (hash_input ''2.7.3'' [''bar'', ''foo==1.0''])
   \<and> deps_hash ''2.7.3'' [''foo==1.0'', ''bar''] \<noteq> deps_hash ''2.7.3'' [''bar'', ''foo==1.0'']"
proof -
  have ne: "[''foo==1.0'', ''bar''] \<noteq> [''bar'', ''foo==1.0'']" by simp
  have ms: "mset [''foo==1.0'', ''bar''] = mset [''bar'', ''foo==1.0'']" by simp
  have nc: "\<not> digest_collision (hash_input ''2.7.3'' [''foo==1.0'', ''bar''])
      (hash_input ''2.7.3'' [''bar'', ''foo==1.0''])"
    using example_identity example_identity_swapped
    by (simp add: digest_collision_def deps_hash_def)
  from ne ms nc
    identity_deterministic_and_order_sensitive
      [of "[''foo==1.0'', ''bar'']" "[''bar'', ''foo==1.0'']" "''2.7.3''"]
  show ?thesis by blast
qed

end
